theory Spec2Isabelle
  imports Complex_Main "HOL-Library.AList" "HOL-Library.Sublist"
begin

section \<open>Data model (shared/schema.ts)\<close>

text \<open>
  \<^verbatim>\<open>InsertCompany\<close> is the row of table \<^verbatim>\<open>companies\<close> without its \<^verbatim>\<open>id\<close>;
  \<^verbatim>\<open>Company\<close> is the full row. The field \<^verbatim>\<open>id\<close> is written \<open>id_c\<close>, since \<open>id\<close> is
  the identity function of HOL. JavaScript numbers that hold identifiers, page numbers and
  counts are modelled as unbounded integers: the model covers integral arguments and
  leaves the loss of precision of doubles beyond \<open>2^53\<close> aside. The field
  \<^verbatim>\<open>employees\<close> is a \<^verbatim>\<open>number\<close> that the code only stores and tests for truthiness: a
  finite value, \<^verbatim>\<open>NaN\<close> or an infinity.
\<close>

datatype js_number = Finite rat | NaN | PosInfinity | NegInfinity

record InsertCompany =
  name :: string
  contact :: string
  email :: string
  phone :: string
  industry :: string
  location :: string
  employees :: js_number
  revenue :: string
  status :: string
  lastContact :: string

record Company = InsertCompany +
  id_c :: int

text \<open>
  \<^verbatim>\<open>Partial<InsertCompany>\<close>: every key may be missing (\<open>None\<close>). The keys carry the
  suffix \<open>_opt\<close>, as field names are global constants.
\<close>

record PartialInsertCompany =
  name_opt :: "string option"
  contact_opt :: "string option"
  email_opt :: "string option"
  phone_opt :: "string option"
  industry_opt :: "string option"
  location_opt :: "string option"
  employees_opt :: "js_number option"
  revenue_opt :: "string option"
  status_opt :: "string option"
  lastContact_opt :: "string option"

text \<open>The object \<^verbatim>\<open>{ ...insertCompany, id }\<close>.\<close>

definition with_id :: "InsertCompany \<Rightarrow> int \<Rightarrow> Company" where
  "with_id c i =
     \<lparr>name = name c, contact = contact c, email = email c, phone = phone c,
      industry = industry c, location = location c, employees = employees c,
      revenue = revenue c, status = status c, lastContact = lastContact c, id_c = i\<rparr>"

text \<open>The fields of a \<^verbatim>\<open>Company\<close> other than its identifier.\<close>

definition insert_part :: "Company \<Rightarrow> InsertCompany" where
  "insert_part c =
     \<lparr>name = name c, contact = contact c, email = email c, phone = phone c,
      industry = industry c, location = location c, employees = employees c,
      revenue = revenue c, status = status c, lastContact = lastContact c\<rparr>"

text \<open>
  The object \<^verbatim>\<open>{ ...company, ...companyData }\<close>: a key present in \<^verbatim>\<open>companyData\<close>
  overwrites the key of \<^verbatim>\<open>company\<close>; \<^verbatim>\<open>Partial<InsertCompany>\<close> has no key \<^verbatim>\<open>id\<close>.
\<close>

definition or_else :: "'a option \<Rightarrow> 'a \<Rightarrow> 'a" where
  "or_else v d = (case v of None \<Rightarrow> d | Some x \<Rightarrow> x)"

definition spread :: "Company \<Rightarrow> PartialInsertCompany \<Rightarrow> Company" where
  "spread company companyData =
     \<lparr>name = or_else (name_opt companyData) (name company),
      contact = or_else (contact_opt companyData) (contact company),
      email = or_else (email_opt companyData) (email company),
      phone = or_else (phone_opt companyData) (phone company),
      industry = or_else (industry_opt companyData) (industry company),
      location = or_else (location_opt companyData) (location company),
      employees = or_else (employees_opt companyData) (employees company),
      revenue = or_else (revenue_opt companyData) (revenue company),
      status = or_else (status_opt companyData) (status company),
      lastContact = or_else (lastContact_opt companyData) (lastContact company),
      id_c = id_c company\<rparr>"

section \<open>JavaScript built-ins used by the storage layer\<close>

text \<open>
  A JavaScript \<^verbatim>\<open>Map\<close> iterates in insertion order: it is an association list with
  distinct keys. \<^verbatim>\<open>set\<close> on a key that is present replaces the value in place, on a
  new key it appends; \<^verbatim>\<open>delete\<close> removes the entry and reports whether there was one.
\<close>

type_synonym ('k, 'v) js_map = "('k \<times> 'v) list"

definition map_get :: "('k, 'v) js_map \<Rightarrow> 'k \<Rightarrow> 'v option" where
  "map_get m k = map_of m k"

definition map_set :: "('k, 'v) js_map \<Rightarrow> 'k \<Rightarrow> 'v \<Rightarrow> ('k, 'v) js_map" where
  "map_set m k v = AList.update k v m"

definition map_delete :: "('k, 'v) js_map \<Rightarrow> 'k \<Rightarrow> bool \<times> ('k, 'v) js_map" where
  "map_delete m k = (k \<in> set (map fst m), AList.delete k m)"

definition map_values :: "('k, 'v) js_map \<Rightarrow> 'v list" where
  "map_values m = map snd m"

text \<open>
  \<^verbatim>\<open>Array.prototype.slice(start, end)\<close> on integral arguments: a negative index counts
  from the end of the array, both indices are clamped to \<open>[0, length]\<close>, and the result
  is empty when the clamped end is not beyond the clamped start.
\<close>

definition slice :: "'a list \<Rightarrow> int \<Rightarrow> int \<Rightarrow> 'a list" where
  "slice xs startIndex endIndex =
     (let len = int (length xs);
          k = (if startIndex < 0 then max (len + startIndex) 0 else min startIndex len);
          final = (if endIndex < 0 then max (len + endIndex) 0 else min endIndex len)
      in take (nat (final - k)) (drop (nat k) xs))"

text \<open>
  \<^verbatim>\<open>String.prototype.toLowerCase\<close> and \<^verbatim>\<open>String.prototype.includes\<close> (the argument
  occurs at some position of the string). A \<open>char\<close> of HOL is a byte, and \<open>toLowerCase\<close>
  is exact on strings of ASCII characters: it maps the 26 capital letters and leaves every
  other byte as it is, where JavaScript also folds the capital letters beyond ASCII.
\<close>

definition lower_char :: "char \<Rightarrow> char" where
  "lower_char c =
     (let n = (of_char c :: nat) in if 65 \<le> n \<and> n \<le> 90 then char_of (n + 32) else c)"

definition toLowerCase :: "string \<Rightarrow> string" where
  "toLowerCase s = map lower_char s"

fun includes_str :: "string \<Rightarrow> string \<Rightarrow> bool" where
  "includes_str [] q = (q = [])"
| "includes_str (c # s) q = (prefix q (c # s) \<or> includes_str s q)"

section \<open>The in-memory store (server/storage.ts, class MemStorage)\<close>

text \<open>
  The state of a \<^verbatim>\<open>MemStorage\<close>: the map of companies and the counter of identifiers.
  (The map of users and its counter are touched by no company method and are left out.)
  Every method runs to completion between two \<^verbatim>\<open>await\<close> points, so a method is a
  function from the state to a result and the next state.
\<close>

record MemStorage =
  companiesMap :: "(int, Company) js_map"
  currentCompanyId :: int

text \<open>The result object \<^verbatim>\<open>{ companies, total }\<close>.\<close>

record CompanyPage =
  companies :: "Company list"
  total :: nat

definition getCompanies :: "MemStorage \<Rightarrow> int \<Rightarrow> int \<Rightarrow> CompanyPage" where
  "getCompanies this page pageSize =
     (let companies = map_values (companiesMap this);
          total = length companies;
          startIndex = (page - 1) * pageSize;
          endIndex = startIndex + pageSize
      in \<lparr>companies = slice companies startIndex endIndex, total = total\<rparr>)"

definition getCompany :: "MemStorage \<Rightarrow> int \<Rightarrow> Company option" where
  "getCompany this i = map_get (companiesMap this) i"

definition createCompany :: "MemStorage \<Rightarrow> InsertCompany \<Rightarrow> Company \<times> MemStorage" where
  "createCompany this insertCompany =
     (let i = currentCompanyId this;
          this1 = this\<lparr>currentCompanyId := currentCompanyId this + 1\<rparr>;
          company = with_id insertCompany i
      in (company, this1\<lparr>companiesMap := map_set (companiesMap this1) i company\<rparr>))"

definition updateCompany ::
  "MemStorage \<Rightarrow> int \<Rightarrow> PartialInsertCompany \<Rightarrow> Company option \<times> MemStorage" where
  "updateCompany this i companyData =
     (case map_get (companiesMap this) i of
        None \<Rightarrow> (None, this)
      | Some company \<Rightarrow>
          (let updatedCompany = spread company companyData
           in (Some updatedCompany,
               this\<lparr>companiesMap := map_set (companiesMap this) i updatedCompany\<rparr>)))"

definition deleteCompany :: "MemStorage \<Rightarrow> int \<Rightarrow> bool \<times> MemStorage" where
  "deleteCompany this i =
     (let (removed, m) = map_delete (companiesMap this) i
      in (removed, this\<lparr>companiesMap := m\<rparr>))"

text \<open>The predicate of the \<^verbatim>\<open>filter\<close> call in \<^verbatim>\<open>searchCompanies\<close>.\<close>

definition matches :: "string \<Rightarrow> Company \<Rightarrow> bool" where
  "matches lowercaseQuery company \<longleftrightarrow>
     includes_str (toLowerCase (name company)) lowercaseQuery \<or>
     includes_str (toLowerCase (contact company)) lowercaseQuery \<or>
     includes_str (toLowerCase (email company)) lowercaseQuery \<or>
     includes_str (toLowerCase (industry company)) lowercaseQuery \<or>
     includes_str (toLowerCase (location company)) lowercaseQuery"

definition searchCompanies :: "MemStorage \<Rightarrow> string \<Rightarrow> int \<Rightarrow> int \<Rightarrow> CompanyPage" where
  "searchCompanies this query page pageSize =
     (let companies = map_values (companiesMap this);
          lowercaseQuery = toLowerCase query;
          filteredCompanies = filter (matches lowercaseQuery) companies;
          total = length filteredCompanies;
          startIndex = (page - 1) * pageSize;
          endIndex = startIndex + pageSize
      in \<lparr>companies = slice filteredCompanies startIndex endIndex, total = total\<rparr>)"

text \<open>
  \<^verbatim>\<open>createManyCompanies\<close>: the \<^verbatim>\<open>for ... of\<close> loop with its counter. (Other requests
  that the event loop may serve between two iterations are not part of the model.)
\<close>

fun createMany_loop :: "MemStorage \<Rightarrow> nat \<Rightarrow> InsertCompany list \<Rightarrow> nat \<times> MemStorage" where
  "createMany_loop this count [] = (count, this)"
| "createMany_loop this count (company # rest) =
     createMany_loop (snd (createCompany this company)) (count + 1) rest"

definition createManyCompanies :: "MemStorage \<Rightarrow> InsertCompany list \<Rightarrow> nat \<times> MemStorage" where
  "createManyCompanies this insertCompanies = createMany_loop this 0 insertCompanies"

text \<open>The constructor: empty maps, counter 1, then the three sample companies.\<close>

definition sampleCompanies :: "InsertCompany list" where
  "sampleCompanies =
     [\<lparr>name = ''Acme Inc.'', contact = ''John Smith'', email = ''john@acmeinc.com'',
       phone = ''+1 (555) 123-4567'', industry = ''Technology'',
       location = ''San Francisco, CA'', employees = Finite 250, revenue = ''$25M'',
       status = ''Active'', lastContact = ''2023-08-15''\<rparr>,
      \<lparr>name = ''TechCorp'', contact = ''Jane Doe'', email = ''jane@techcorp.com'',
       phone = ''+1 (555) 987-6543'', industry = ''Software'',
       location = ''Austin, TX'', employees = Finite 500, revenue = ''$50M'',
       status = ''Pending'', lastContact = ''2023-08-10''\<rparr>,
      \<lparr>name = ''Global Industries'', contact = ''Michael Johnson'',
       email = ''michael@globalind.com'', phone = ''+1 (555) 222-3333'',
       industry = ''Manufacturing'', location = ''Chicago, IL'', employees = Finite 1200,
       revenue = ''$120M'', status = ''Inactive'', lastContact = ''2023-07-22''\<rparr>]"

definition MemStorage_fields :: MemStorage where
  "MemStorage_fields = \<lparr>companiesMap = [], currentCompanyId = 1\<rparr>"

definition MemStorage_new :: MemStorage where
  "MemStorage_new = fold (\<lambda>company this. snd (createCompany this company)) sampleCompanies MemStorage_fields"

text \<open>
  The state a store keeps between calls: the keys of the map are in ascending order (the
  order of insertion), the record stored under a key carries that key as its identifier,
  and the counter is beyond every key.
\<close>

definition store_inv :: "MemStorage \<Rightarrow> bool" where
  "store_inv this \<longleftrightarrow>
     sorted_wrt (<) (map fst (companiesMap this)) \<and>
     list_all (\<lambda>(k, c). id_c c = k \<and> k < currentCompanyId this) (companiesMap this)"

text \<open>
  The reading of \<^verbatim>\<open>createManyCompanies\<close> in the specification: \<^verbatim>\<open>createCompany\<close> on each
  element, in input order. It returns the created records and the final state.
\<close>

fun create_each :: "MemStorage \<Rightarrow> InsertCompany list \<Rightarrow> Company list \<times> MemStorage" where
  "create_each this [] = ([], this)"
| "create_each this (c # cs) =
     (let (company, this1) = createCompany this c;
          (later, this2) = create_each this1 cs
      in (company # later, this2))"

text \<open>
  A lifetime of a store is a sequence of mutating calls. \<open>run\<close> performs them in order and
  collects the records that \<^verbatim>\<open>createCompany\<close> returned, oldest first; for a call of
  \<^verbatim>\<open>createManyCompanies\<close>, whose result is a count, these are the records that its calls
  of \<^verbatim>\<open>createCompany\<close> return.
\<close>

datatype request =
  Create InsertCompany
| Update int PartialInsertCompany
| Delete int
| CreateMany "InsertCompany list"

fun step :: "MemStorage \<Rightarrow> request \<Rightarrow> Company list \<times> MemStorage" where
  "step this (Create c) = (let (company, this1) = createCompany this c in ([company], this1))"
| "step this (Update i p) = ([], snd (updateCompany this i p))"
| "step this (Delete i) = ([], snd (deleteCompany this i))"
| "step this (CreateMany cs) = (fst (create_each this cs), snd (createManyCompanies this cs))"

fun run :: "MemStorage \<Rightarrow> request list \<Rightarrow> Company list \<times> MemStorage" where
  "run this [] = ([], this)"
| "run this (r # rs) =
     (let (created, this1) = step this r;
          (created_later, this2) = run this1 rs
      in (created @ created_later, this2))"

section \<open>The persistent store (class DatabaseStorage)\<close>

text \<open>
  \<^verbatim>\<open>DatabaseStorage\<close> sends every call to the database. The table \<^verbatim>\<open>companies\<close> is the
  list of its rows. Modelled are the statements of \<^verbatim>\<open>getCompany\<close>, \<^verbatim>\<open>deleteCompany\<close>
  and \<^verbatim>\<open>searchCompanies\<close>. With the condition \<^verbatim>\<open>eq(companies.id, id)\<close> the \<^verbatim>\<open>select\<close>
  keeps the rows with that identifier and the \<^verbatim>\<open>delete\<close> keeps the others.
\<close>

type_synonym companies_table = "Company list"

definition db_select_where_id :: "companies_table \<Rightarrow> int \<Rightarrow> Company list" where
  "db_select_where_id t i = filter (\<lambda>r. id_c r = i) t"

definition db_delete_where_id :: "companies_table \<Rightarrow> int \<Rightarrow> companies_table" where
  "db_delete_where_id t i = filter (\<lambda>r. id_c r \<noteq> i) t"

definition DatabaseStorage_getCompany :: "companies_table \<Rightarrow> int \<Rightarrow> Company option" where
  "DatabaseStorage_getCompany t i =
     (case db_select_where_id t i of [] \<Rightarrow> None | company # _ \<Rightarrow> Some company)"

definition DatabaseStorage_deleteCompany :: "companies_table \<Rightarrow> int \<Rightarrow> bool \<times> companies_table" where
  "DatabaseStorage_deleteCompany t i = (let result = db_delete_where_id t i in (True, result))"

text \<open>
  The operator \<^verbatim>\<open>ILIKE\<close> of PostgreSQL, behind \<^verbatim>\<open>ilike(column, pattern)\<close>. In a pattern
  \<^verbatim>\<open>%\<close> stands for any sequence of characters, \<^verbatim>\<open>_\<close> for any one character, a
  backslash takes the character after it literally, and every other character stands for
  itself; two characters are compared after case folding. The folding is the database's
  and depends on its locale: it is the parameter \<open>lc\<close>. (A pattern that ends in a single
  backslash is refused by PostgreSQL; a pattern \<^verbatim>\<open>%query%\<close> never does, and the
  model has \<open>False\<close> there.)
\<close>

fun like_match :: "(char \<Rightarrow> char) \<Rightarrow> string \<Rightarrow> string \<Rightarrow> bool" where
  "like_match lc [] s = (s = [])"
| "like_match lc (p # ps) s =
     (if p = CHR ''%'' then
        like_match lc ps s \<or> (case s of [] \<Rightarrow> False | c # cs \<Rightarrow> like_match lc (p # ps) cs)
      else if p = CHR ''_'' then
        (case s of [] \<Rightarrow> False | c # cs \<Rightarrow> like_match lc ps cs)
      else if p = CHR 0x5C then
        (case ps of
           [] \<Rightarrow> False
         | q # qs \<Rightarrow> (case s of [] \<Rightarrow> False | c # cs \<Rightarrow> lc q = lc c \<and> like_match lc qs cs))
      else (case s of [] \<Rightarrow> False | c # cs \<Rightarrow> lc p = lc c \<and> like_match lc ps cs))"

definition ilike :: "(char \<Rightarrow> char) \<Rightarrow> string \<Rightarrow> string \<Rightarrow> bool" where
  "ilike lc column pattern = like_match lc pattern column"

text \<open>
  \<^verbatim>\<open>DatabaseStorage.searchCompanies\<close>: the condition is the disjunction of five
  \<^verbatim>\<open>ilike\<close> tests against the pattern \<^verbatim>\<open>`%${query}%`\<close>; the first statement counts
  the rows that satisfy it; the second returns them by descending identifier, skips
  \<^verbatim>\<open>offset\<close> rows and returns at most \<^verbatim>\<open>pageSize\<close>. PostgreSQL refuses a negative
  \<^verbatim>\<open>LIMIT\<close> or \<^verbatim>\<open>OFFSET\<close>, and the method then throws.
\<close>

definition searchCondition :: "(char \<Rightarrow> char) \<Rightarrow> string \<Rightarrow> Company \<Rightarrow> bool" where
  "searchCondition lc query r \<longleftrightarrow>
     ilike lc (name r) (''%'' @ query @ ''%'') \<or>
     ilike lc (contact r) (''%'' @ query @ ''%'') \<or>
     ilike lc (email r) (''%'' @ query @ ''%'') \<or>
     ilike lc (industry r) (''%'' @ query @ ''%'') \<or>
     ilike lc (location r) (''%'' @ query @ ''%'')"

datatype db_error = QueryError

definition DatabaseStorage_searchCompanies ::
  "(char \<Rightarrow> char) \<Rightarrow> companies_table \<Rightarrow> string \<Rightarrow> int \<Rightarrow> int \<Rightarrow> db_error + CompanyPage" where
  "DatabaseStorage_searchCompanies lc t query page pageSize =
     (let total = length (filter (searchCondition lc query) t);
          offset = (page - 1) * pageSize
      in if pageSize < 0 \<or> offset < 0 then Inl QueryError
         else Inr \<lparr>companies =
                     take (nat pageSize)
                       (drop (nat offset)
                          (rev (sort_key id_c (filter (searchCondition lc query) t)))),
                   total = total\<rparr>)"

section \<open>The import adapter (processExcelFile, normalizeHeaders)\<close>

text \<open>
  \<^verbatim>\<open>sheet_to_json(worksheet, { header: 1 })\<close> gives one array for each row of the sheet.
  A cell is a string, a number, a boolean or \<^verbatim>\<open>null\<close>; a missing cell leaves a hole
  in the array (\<open>None\<close>), which reads as \<^verbatim>\<open>undefined\<close> and which \<^verbatim>\<open>map\<close> and
  \<^verbatim>\<open>forEach\<close> pass over. The first row is read as the headers: the cast
  \<^verbatim>\<open>as string[]\<close> checks nothing, so a header is a cell like any other.
\<close>

datatype cell = CStr string | CNum js_number | CBool bool | CNull

type_synonym row = "cell option list"

text \<open>
  What the adapter takes from the JavaScript runtime: \<^verbatim>\<open>parseInt\<close>, the text
  \<^verbatim>\<open>String(n)\<close> of a number \<open>n\<close>, and the current date,
  \<^verbatim>\<open>new Date().toISOString().split('T')[0]\<close>.
\<close>

record runtime =
  parseInt :: "string \<Rightarrow> js_number"
  numberToString :: "js_number \<Rightarrow> string"
  today :: string

definition String_of :: "runtime \<Rightarrow> cell \<Rightarrow> string" where
  "String_of rt v =
     (case v of
        CStr s \<Rightarrow> s
      | CNum n \<Rightarrow> numberToString rt n
      | CBool b \<Rightarrow> (if b then ''true'' else ''false'')
      | CNull \<Rightarrow> ''null'')"

text \<open>The numbers that are falsy: zero and \<^verbatim>\<open>NaN\<close>.\<close>

definition falsy_number :: "js_number \<Rightarrow> bool" where
  "falsy_number n \<longleftrightarrow> n = Finite 0 \<or> n = NaN"

text \<open>
  The errors \<^verbatim>\<open>processExcelFile\<close> ends with: the two it throws itself, and the
  \<^verbatim>\<open>TypeError\<close> of calling \<^verbatim>\<open>toLowerCase\<close> on a value that is not a string.
\<close>

datatype import_error = NoData | NoValidData | TypeError

text \<open>
  \<^verbatim>\<open>normalizeHeaders\<close>. The object literal \<^verbatim>\<open>headerMap\<close> has nine keys of its own and
  inherits those of \<^verbatim>\<open>Object.prototype\<close>. \<^verbatim>\<open>headerMap[lowerHeader]\<close> is the string at
  an own key; at an inherited key it is a function or an object (\<open>HObject\<close>), which is
  truthy, so that the normalized header is not a string. Of the inherited keys only
  \<^verbatim>\<open>constructor\<close> and \<^verbatim>\<open>__proto__\<close> are in lower case and can be equal to a lower-cased
  header.
\<close>

datatype header = HString string | HObject

definition headerMap :: "(string \<times> string) list" where
  "headerMap =
     [(''company'', ''name''),
      (''company name'', ''name''),
      (''contact person'', ''contact''),
      (''contact name'', ''contact''),
      (''phone number'', ''phone''),
      (''employee count'', ''employees''),
      (''number of employees'', ''employees''),
      (''last contacted'', ''lastContact''),
      (''last contact date'', ''lastContact'')]"

definition prototype_keys :: "string list" where
  "prototype_keys = [''constructor'', ''__proto__'']"

definition headerMap_get :: "string \<Rightarrow> header option" where
  "headerMap_get lowerHeader =
     (case map_of headerMap lowerHeader of
        Some v \<Rightarrow> Some (HString v)
      | None \<Rightarrow> if lowerHeader \<in> set prototype_keys then Some HObject else None)"

text \<open>The function given to \<^verbatim>\<open>headers.map\<close>; it throws on a header that is not a string.\<close>

definition normalizeHeader :: "cell \<Rightarrow> import_error + header" where
  "normalizeHeader h =
     (case h of
        CStr s \<Rightarrow>
          (let lowerHeader = toLowerCase s
           in Inr (or_else (headerMap_get lowerHeader) (HString lowerHeader)))
      | _ \<Rightarrow> Inl TypeError)"

fun normalizeHeaders :: "row \<Rightarrow> import_error + header option list" where
  "normalizeHeaders [] = Inr []"
| "normalizeHeaders (None # rest) =
     (case normalizeHeaders rest of Inl e \<Rightarrow> Inl e | Inr hs \<Rightarrow> Inr (None # hs))"
| "normalizeHeaders (Some h # rest) =
     (case normalizeHeader h of
        Inl e \<Rightarrow> Inl e
      | Inr v \<Rightarrow> (case normalizeHeaders rest of Inl e \<Rightarrow> Inl e | Inr hs \<Rightarrow> Inr (Some v # hs)))"

definition empty_partial :: PartialInsertCompany where
  "empty_partial =
     \<lparr>name_opt = None, contact_opt = None, email_opt = None, phone_opt = None,
      industry_opt = None, location_opt = None, employees_opt = None, revenue_opt = None,
      status_opt = None, lastContact_opt = None\<rparr>"

text \<open>The \<^verbatim>\<open>switch\<close> on the lower-cased header, for a header that is a string.\<close>

definition assign :: "runtime \<Rightarrow> string \<Rightarrow> cell \<Rightarrow> PartialInsertCompany \<Rightarrow> PartialInsertCompany" where
  "assign rt header v company =
     (let h = toLowerCase header in
      if h = ''name'' then company\<lparr>name_opt := Some (String_of rt v)\<rparr>
      else if h = ''contact'' \<or> h = ''contactname'' \<or> h = ''contactperson''
        then company\<lparr>contact_opt := Some (String_of rt v)\<rparr>
      else if h = ''email'' \<or> h = ''emailaddress''
        then company\<lparr>email_opt := Some (String_of rt v)\<rparr>
      else if h = ''phone'' \<or> h = ''phonenumber''
        then company\<lparr>phone_opt := Some (String_of rt v)\<rparr>
      else if h = ''industry'' \<or> h = ''sector''
        then company\<lparr>industry_opt := Some (String_of rt v)\<rparr>
      else if h = ''location'' \<or> h = ''address''
        then company\<lparr>location_opt := Some (String_of rt v)\<rparr>
      else if h = ''employees'' \<or> h = ''employeecount'' \<or> h = ''employeenumber''
        then company\<lparr>employees_opt :=
               Some (case v of
                       CNum n \<Rightarrow> n
                     | _ \<Rightarrow> (let parsed = parseInt rt (String_of rt v)
                             in if falsy_number parsed then Finite 0 else parsed))\<rparr>
      else if h = ''revenue'' \<or> h = ''annualrevenue''
        then company\<lparr>revenue_opt := Some (String_of rt v)\<rparr>
      else if h = ''status'' \<or> h = ''companystatus''
        then company\<lparr>status_opt := Some (String_of rt v)\<rparr>
      else if h = ''lastcontact'' \<or> h = ''lastcontactdate''
        then company\<lparr>lastContact_opt := Some (String_of rt v)\<rparr>
      else company)"

text \<open>\<^verbatim>\<open>row[index]\<close>, which is \<^verbatim>\<open>undefined\<close> at a hole and beyond the end of the row.\<close>

definition row_at :: "row \<Rightarrow> nat \<Rightarrow> cell option" where
  "row_at r index = (if index < length r then r ! index else None)"

text \<open>
  \<^verbatim>\<open>normalizedHeaders.forEach((header, index) => ...)\<close>, from the given index on. Where
  the cell of the row is \<^verbatim>\<open>undefined\<close> the function returns at once; otherwise it calls
  \<^verbatim>\<open>header.toLowerCase()\<close>, which throws if the header is not a string.
\<close>

fun forEach_header ::
  "runtime \<Rightarrow> nat \<Rightarrow> header option list \<Rightarrow> row \<Rightarrow> PartialInsertCompany \<Rightarrow>
   import_error + PartialInsertCompany" where
  "forEach_header rt index [] r company = Inr company"
| "forEach_header rt index (None # rest) r company =
     forEach_header rt (index + 1) rest r company"
| "forEach_header rt index (Some header # rest) r company =
     (case row_at r index of
        None \<Rightarrow> forEach_header rt (index + 1) rest r company
      | Some v \<Rightarrow>
          (case header of
             HObject \<Rightarrow> Inl TypeError
           | HString h \<Rightarrow> forEach_header rt (index + 1) rest r (assign rt h v company)))"

text \<open>
  Truthiness of an optional string (\<^verbatim>\<open>undefined\<close> and \<^verbatim>\<open>""\<close> are falsy), and the
  statements \<^verbatim>\<open>if (!x) x = d\<close> for a string and for a number.
\<close>

definition truthy :: "string option \<Rightarrow> bool" where
  "truthy v = (case v of None \<Rightarrow> False | Some s \<Rightarrow> s \<noteq> [])"

definition str_default :: "string option \<Rightarrow> string \<Rightarrow> string" where
  "str_default v d = (case v of None \<Rightarrow> d | Some s \<Rightarrow> if s = [] then d else s)"

definition num_default :: "js_number option \<Rightarrow> js_number \<Rightarrow> js_number" where
  "num_default v d = (case v of None \<Rightarrow> d | Some n \<Rightarrow> if falsy_number n then d else n)"

text \<open>The validation of the required fields and the defaults; \<open>None\<close> drops the row.\<close>

definition validate :: "runtime \<Rightarrow> PartialInsertCompany \<Rightarrow> InsertCompany option" where
  "validate rt company =
     (if truthy (name_opt company) \<and> truthy (contact_opt company) \<and> truthy (email_opt company)
      then Some
        \<lparr>name = or_else (name_opt company) [],
         contact = or_else (contact_opt company) [],
         email = or_else (email_opt company) [],
         phone = str_default (phone_opt company) ''N/A'',
         industry = str_default (industry_opt company) ''Other'',
         location = str_default (location_opt company) ''Unknown'',
         employees = num_default (employees_opt company) (Finite 0),
         revenue = str_default (revenue_opt company) ''Unknown'',
         status = str_default (status_opt company) ''New'',
         lastContact = str_default (lastContact_opt company) (today rt)\<rparr>
      else None)"

text \<open>
  The loop over the data rows; \<open>pushed\<close> is the array \<^verbatim>\<open>companies\<close> built so far. An
  error thrown for one row ends the loop.
\<close>

fun rows_loop ::
  "runtime \<Rightarrow> header option list \<Rightarrow> row list \<Rightarrow> InsertCompany list \<Rightarrow>
   import_error + InsertCompany list" where
  "rows_loop rt normalizedHeaders [] pushed = Inr pushed"
| "rows_loop rt normalizedHeaders (r # rest) pushed =
     (if r = [] then rows_loop rt normalizedHeaders rest pushed
      else case forEach_header rt 0 normalizedHeaders r empty_partial of
             Inl e \<Rightarrow> Inl e
           | Inr company \<Rightarrow>
               (case validate rt company of
                  None \<Rightarrow> rows_loop rt normalizedHeaders rest pushed
                | Some c \<Rightarrow> rows_loop rt normalizedHeaders rest (pushed @ [c])))"

text \<open>
  \<^verbatim>\<open>processExcelFile\<close> from the parsed sheet \<^verbatim>\<open>data\<close> on. The result is the array sent
  to \<^verbatim>\<open>/api/import\<close>, or the error that the \<^verbatim>\<open>catch\<close> block reports as a failed
  import.
\<close>

definition processExcelFile :: "runtime \<Rightarrow> row list \<Rightarrow> import_error + InsertCompany list" where
  "processExcelFile rt data =
     (case data of
        [] \<Rightarrow> Inl NoData
      | headers # rows \<Rightarrow>
          if rows = [] then Inl NoData
          else (case normalizeHeaders headers of
                  Inl e \<Rightarrow> Inl e
                | Inr normalizedHeaders \<Rightarrow>
                    (case rows_loop rt normalizedHeaders rows [] of
                       Inl e \<Rightarrow> Inl e
                     | Inr pushed \<Rightarrow>
                         if pushed = [] then Inl NoValidData else Inr pushed)))"

text \<open>
  The values a row maps to where no error is thrown, and the record the row is accepted
  as, if it is.
\<close>

definition mapped ::
  "runtime \<Rightarrow> header option list \<Rightarrow> row \<Rightarrow> import_error + PartialInsertCompany" where
  "mapped rt normalizedHeaders r = forEach_header rt 0 normalizedHeaders r empty_partial"

definition non_empty :: "string option \<Rightarrow> bool" where
  "non_empty v \<longleftrightarrow> (\<exists>s. v = Some s \<and> s \<noteq> [])"

definition accepted :: "runtime \<Rightarrow> header option list \<Rightarrow> row \<Rightarrow> InsertCompany option" where
  "accepted rt normalizedHeaders r =
     (case mapped rt normalizedHeaders r of Inl e \<Rightarrow> None | Inr company \<Rightarrow> validate rt company)"

text \<open>
  A header on which \<^verbatim>\<open>normalizeHeaders\<close> gives a string: a hole, or a string that in
  lower case is no key of \<^verbatim>\<open>Object.prototype\<close>.
\<close>

definition plain_header :: "cell option \<Rightarrow> bool" where
  "plain_header h =
     (case h of
        None \<Rightarrow> True
      | Some (CStr s) \<Rightarrow> toLowerCase s \<notin> set prototype_keys
      | Some _ \<Rightarrow> False)"

section \<open>Properties of the built-ins\<close>

lemma slice_is_window: "\<exists>a n. slice xs s e = take n (drop a xs)"
  unfolding slice_def Let_def by blast

lemma slice_nonneg:
  assumes "0 \<le> s" "0 \<le> e"
  shows "slice xs s e = take (nat (e - s)) (drop (nat s) xs)"
proof (cases "s \<le> int (length xs)")
  case True
  with assms show ?thesis
    by (auto simp: slice_def Let_def min_def intro!: take_all_iff[THEN iffD2] simp: nat_diff_distrib)
next
  case False
  with assms show ?thesis by (simp add: slice_def Let_def min_def)
qed

lemma slice_page:
  assumes "1 \<le> page" "0 \<le> pageSize"
  shows "slice xs ((page - 1) * pageSize) ((page - 1) * pageSize + pageSize) =
         take (nat pageSize) (drop (nat (page - 1) * nat pageSize) xs)"
  using assms by (simp add: slice_nonneg nat_mult_distrib)

lemma includes_str_sublist: "includes_str s q \<longleftrightarrow> sublist q s"
  by (induction s) (auto simp: sublist_Cons_right)

lemma update_fresh: "k \<notin> fst ` set m \<Longrightarrow> AList.update k v m = m @ [(k, v)]"
  by (induction m) auto

lemma map_fst_update_present:
  "k \<in> fst ` set m \<Longrightarrow> map fst (AList.update k v m) = map fst m"
  by (induction m) auto

lemma set_update_subset: "set (AList.update k v m) \<subseteq> insert (k, v) (set m)"
  by (induction m) auto

lemma concat_pages:
  "concat (map (\<lambda>p. take n (drop ((p - 1) * n) xs)) [1..<Suc k]) = take (k * n) xs"
proof (induction k)
  case 0
  show ?case by simp
next
  case (Suc k)
  have "take (k * n) xs @ take n (drop (k * n) xs) = take (k * n + n) xs"
    by (simp add: take_add)
  with Suc show ?case by (simp add: add.commute)
qed

lemma adjacent_windows:
  "take n (drop a xs) @ take n (drop (a + n) xs) = take (n + n) (drop a xs)"
  by (simp add: take_add add.commute)

lemma disjoint_windows:
  assumes "distinct xs"
  shows "set (take n (drop a xs)) \<inter> set (take n (drop (a + n) xs)) = {}"
proof -
  have "distinct (take (n + n) (drop a xs))"
    using assms by simp
  then show ?thesis
    by (metis adjacent_windows distinct_append)
qed

section \<open>The invariant of the in-memory store\<close>

lemma with_id_id [simp]: "id_c (with_id c i) = i"
  by (simp add: with_id_def)

lemma insert_part_with_id [simp]: "insert_part (with_id c i) = c"
  by (simp add: with_id_def insert_part_def)

lemma spread_id [simp]: "id_c (spread c p) = id_c c"
  by (simp add: spread_def)

lemma store_inv_fresh:
  "store_inv this \<Longrightarrow> currentCompanyId this \<notin> fst ` set (companiesMap this)"
  by (auto simp: store_inv_def list_all_iff)

lemma createCompany_append:
  assumes "store_inv this"
  shows "createCompany this c =
     (with_id c (currentCompanyId this),
      \<lparr>companiesMap =
         companiesMap this @ [(currentCompanyId this, with_id c (currentCompanyId this))],
       currentCompanyId = currentCompanyId this + 1\<rparr>)"
  using store_inv_fresh[OF assms]
  by (simp add: createCompany_def Let_def map_set_def update_fresh)

lemma store_inv_createCompany:
  assumes "store_inv this"
  shows "store_inv (snd (createCompany this c))"
  using assms
  by (auto simp: createCompany_append[OF assms] store_inv_def sorted_wrt_append list_all_iff)

lemma store_inv_updateCompany:
  assumes "store_inv this"
  shows "store_inv (snd (updateCompany this i p))"
proof (cases "map_of (companiesMap this) i")
  case None
  with assms show ?thesis by (simp add: updateCompany_def map_get_def)
next
  case (Some c)
  then have mem: "(i, c) \<in> set (companiesMap this)" by (rule map_of_SomeD)
  then have keys:
    "map fst (AList.update i (spread c p) (companiesMap this)) = map fst (companiesMap this)"
    by (intro map_fst_update_present) force
  from mem assms have "id_c c = i" "i < currentCompanyId this"
    by (auto simp: store_inv_def list_all_iff)
  with assms keys Some show ?thesis
    using set_update_subset[of i "spread c p" "companiesMap this"]
    by (auto simp: updateCompany_def map_get_def map_set_def Let_def store_inv_def list_all_iff)
qed

lemma sorted_wrt_delete_keys:
  "sorted_wrt P (map fst m) \<Longrightarrow> sorted_wrt P (map fst (AList.delete k m))"
  by (simp add: AList.delete_eq sorted_wrt_map sorted_wrt_filter)

lemma store_inv_deleteCompany:
  assumes "store_inv this"
  shows "store_inv (snd (deleteCompany this i))"
  using assms sorted_wrt_delete_keys[of "(<)" "companiesMap this" i]
  by (auto simp: deleteCompany_def map_delete_def store_inv_def list_all_iff AList.delete_eq)

lemma store_inv_createMany_loop:
  "store_inv this \<Longrightarrow> store_inv (snd (createMany_loop this n cs))"
  by (induction cs arbitrary: this n) (simp_all add: store_inv_createCompany)

lemma store_inv_createManyCompanies:
  "store_inv this \<Longrightarrow> store_inv (snd (createManyCompanies this cs))"
  by (simp add: createManyCompanies_def store_inv_createMany_loop)

lemma store_inv_fields: "store_inv MemStorage_fields"
  by (simp add: store_inv_def MemStorage_fields_def)

lemma store_inv_fold:
  "store_inv this \<Longrightarrow>
   store_inv (fold (\<lambda>company this. snd (createCompany this company)) cs this)"
  by (induction cs arbitrary: this) (simp_all add: store_inv_createCompany)

lemma store_inv_new: "store_inv MemStorage_new"
  unfolding MemStorage_new_def by (rule store_inv_fold[OF store_inv_fields])

lemma store_inv_ids:
  "store_inv this \<Longrightarrow> map id_c (map_values (companiesMap this)) = map fst (companiesMap this)"
  by (auto simp: store_inv_def list_all_iff map_values_def)

lemma store_inv_ascending:
  "store_inv this \<Longrightarrow> sorted_wrt (<) (map id_c (map_values (companiesMap this)))"
  by (simp add: store_inv_ids) (simp add: store_inv_def)

lemma store_inv_distinct:
  assumes "store_inv this"
  shows "distinct (map_values (companiesMap this))"
proof -
  have "distinct (map id_c (map_values (companiesMap this)))"
    using store_inv_ascending[OF assms] by (simp add: strict_sorted_iff)
  then show ?thesis by (simp add: distinct_map)
qed

lemma store_inv_step: "store_inv this \<Longrightarrow> store_inv (snd (step this r))"
  by (cases r)
     (simp_all add: store_inv_createCompany store_inv_updateCompany store_inv_deleteCompany
        store_inv_createManyCompanies case_prod_beta)

lemma store_inv_run: "store_inv this \<Longrightarrow> store_inv (snd (run this rs))"
proof (induction rs arbitrary: this)
  case Nil
  then show ?case by simp
next
  case (Cons r rs)
  from Cons.IH[OF store_inv_step[OF Cons.prems, of r]] show ?case
    by (simp add: case_prod_beta)
qed

section \<open>Pagination\<close>

lemma getCompanies_window:
  assumes "1 \<le> page" "0 \<le> pageSize"
  shows "companies (getCompanies this page pageSize) =
         take (nat pageSize) (drop (nat (page - 1) * nat pageSize) (map_values (companiesMap this)))"
  using assms by (simp add: getCompanies_def Let_def slice_page)

lemma getCompanies_total [simp]:
  "total (getCompanies this page pageSize) = length (companiesMap this)"
  by (simp add: getCompanies_def Let_def map_values_def)

lemma matches_empty [simp]: "matches [] c"
  by (simp add: matches_def includes_str_sublist)

text \<open>
  C10: \<^verbatim>\<open>searchCompanies\<close> with the empty string as query returns, for every state,
  page and page size, the result of \<^verbatim>\<open>getCompanies\<close>: every record matches the empty
  query, so the window and the total are those of the unfiltered list.
\<close>

theorem searchCompanies_empty_query:
  "searchCompanies this '''' page pageSize = getCompanies this page pageSize"
  by (simp add: searchCompanies_def getCompanies_def toLowerCase_def Let_def)

text \<open>
  C6, as stated, fails on a page below 1: on the three records of a new store, page \<open>-1\<close>
  with page size 1 has the offsets \<open>-2\<close> and \<open>-1\<close>, which \<^verbatim>\<open>slice\<close> counts from the end
  of the array, and the window holds the second record.
\<close>

theorem getCompanies_negative_page_counterexample:
  "companies (getCompanies MemStorage_new (- 1) 1) \<noteq> [] \<and>
   map id_c (companies (getCompanies MemStorage_new (- 1) 1)) = [2]"
  by code_simp

text \<open>
  C6, amended: for every state, every page \<open>\<ge> 1\<close> and every page size \<open>\<ge> 0\<close>,
  \<^verbatim>\<open>getCompanies\<close> returns the records at offset \<open>(page - 1) * pageSize\<close>, at most
  \<open>pageSize\<close> of them; a page whose offset is at or beyond the number of records has the
  empty window, and the total is the number of records.
\<close>

theorem getCompanies_page_window:
  assumes "1 \<le> page" and "0 \<le> pageSize"
  shows "companies (getCompanies this page pageSize) =
           take (nat pageSize) (drop (nat ((page - 1) * pageSize)) (map_values (companiesMap this))) \<and>
         int (length (companies (getCompanies this page pageSize))) \<le> pageSize \<and>
         (int (length (companiesMap this)) \<le> (page - 1) * pageSize \<longrightarrow>
            companies (getCompanies this page pageSize) = []) \<and>
         total (getCompanies this page pageSize) = length (companiesMap this)"
proof -
  have off: "nat (page - 1) * nat pageSize = nat ((page - 1) * pageSize)"
    using assms by (simp add: nat_mult_distrib)
  have w: "companies (getCompanies this page pageSize) =
      take (nat pageSize) (drop (nat ((page - 1) * pageSize)) (map_values (companiesMap this)))"
    using getCompanies_window[OF assms, of this] by (simp only: off)
  have "companies (getCompanies this page pageSize) = []"
    if "int (length (companiesMap this)) \<le> (page - 1) * pageSize"
  proof -
    from that have "length (companiesMap this) \<le> nat ((page - 1) * pageSize)" by linarith
    then show ?thesis by (simp add: w map_values_def)
  qed
  moreover have "int (length (companies (getCompanies this page pageSize))) \<le> pageSize"
    using assms(2) by (simp add: w)
  ultimately show ?thesis using w by simp
qed

theorem getCompanies_page_window_witness:
  "companies (getCompanies MemStorage_new 2 2) = drop 2 (map_values (companiesMap MemStorage_new)) \<and>
   map id_c (companies (getCompanies MemStorage_new 2 2)) = [3] \<and>
   companies (getCompanies MemStorage_new 3 2) = [] \<and>
   total (getCompanies MemStorage_new 3 2) = 3"
proof -
  have len: "length (companiesMap MemStorage_new) = 3" by code_simp
  have "(1::int) \<le> 2" "(0::int) \<le> 2" "(1::int) \<le> 3" by simp_all
  note a = getCompanies_page_window[OF \<open>(1::int) \<le> 2\<close> \<open>(0::int) \<le> 2\<close>, of MemStorage_new]
   and b = getCompanies_page_window[OF \<open>(1::int) \<le> 3\<close> \<open>(0::int) \<le> 2\<close>, of MemStorage_new]
  have ids: "map id_c (drop 2 (map_values (companiesMap MemStorage_new))) = [3]" by code_simp
  from a b len ids show ?thesis by (simp add: map_values_def)
qed

text \<open>
  C7: for every state of a store, every page \<open>\<ge> 1\<close> and every \<open>n \<ge> 1\<close>, the windows of
  pages \<open>page\<close> and \<open>page + 1\<close> share no record, one after the other they are the next
  \<open>2 * n\<close> records from the offset of \<open>page\<close>, and the windows of pages \<open>1\<close> to \<open>k\<close> in order
  are the whole list of records as soon as \<open>k * n\<close> reaches their number.
\<close>

theorem getCompanies_pages_partition:
  assumes "store_inv this" and "1 \<le> page" and "1 \<le> n"
  shows "set (companies (getCompanies this page n)) \<inter>
           set (companies (getCompanies this (page + 1) n)) = {} \<and>
         companies (getCompanies this page n) @ companies (getCompanies this (page + 1) n) =
           take (nat (2 * n)) (drop (nat ((page - 1) * n)) (map_values (companiesMap this))) \<and>
         (\<forall>k. length (companiesMap this) \<le> k * nat n \<longrightarrow>
            concat (map (\<lambda>p. companies (getCompanies this (int p) n)) [1..<Suc k]) =
              map_values (companiesMap this))"
proof -
  let ?xs = "map_values (companiesMap this)"
  let ?a = "nat (page - 1) * nat n"
  from assms have w1: "companies (getCompanies this page n) = take (nat n) (drop ?a ?xs)"
    by (simp add: getCompanies_window)
  from assms have w2:
    "companies (getCompanies this (page + 1) n) = take (nat n) (drop (?a + nat n) ?xs)"
    by (simp add: getCompanies_window nat_add_distrib nat_diff_distrib algebra_simps)
  have disj: "set (take (nat n) (drop ?a ?xs)) \<inter> set (take (nat n) (drop (?a + nat n) ?xs)) = {}"
    by (rule disjoint_windows[OF store_inv_distinct[OF assms(1)]])
  from assms have two: "nat n + nat n = nat (2 * n)" "?a = nat ((page - 1) * n)"
    by (simp_all add: nat_mult_distrib)
  have cat: "take (nat n) (drop ?a ?xs) @ take (nat n) (drop (?a + nat n) ?xs) =
     take (nat (2 * n)) (drop (nat ((page - 1) * n)) ?xs)"
    using adjacent_windows[of "nat n" ?a ?xs] two by simp
  have all: "concat (map (\<lambda>p. companies (getCompanies this (int p) n)) [1..<Suc k]) = ?xs"
    if "length (companiesMap this) \<le> k * nat n" for k
  proof -
    have "map (\<lambda>p. companies (getCompanies this (int p) n)) [1..<Suc k] =
          map (\<lambda>p. take (nat n) (drop ((p - 1) * nat n) ?xs)) [1..<Suc k]"
    proof (intro map_cong refl)
      fix p assume "p \<in> set [1..<Suc k]"
      then have "1 \<le> int p" "nat (int p - 1) = p - 1" by auto
      with assms(3) show "companies (getCompanies this (int p) n) =
          take (nat n) (drop ((p - 1) * nat n) ?xs)"
        by (simp add: getCompanies_window)
    qed
    then have "concat (map (\<lambda>p. companies (getCompanies this (int p) n)) [1..<Suc k]) =
        take (k * nat n) ?xs"
      by (simp only: concat_pages)
    with that show ?thesis by (simp add: map_values_def)
  qed
  from w1 w2 disj cat all show ?thesis by simp
qed

theorem getCompanies_pages_partition_witness:
  "store_inv MemStorage_new \<and>
   set (companies (getCompanies MemStorage_new 1 2)) \<inter>
     set (companies (getCompanies MemStorage_new 2 2)) = {} \<and>
   concat (map (\<lambda>p. companies (getCompanies MemStorage_new (int p) 2)) [1..<Suc 2]) =
     map_values (companiesMap MemStorage_new)"
proof -
  have len: "length (companiesMap MemStorage_new) \<le> 2 * nat 2" by code_simp
  have h: "(1::int) \<le> 1" "(1::int) \<le> 2" by simp_all
  note p = getCompanies_pages_partition[OF store_inv_new h]
  have "set (companies (getCompanies MemStorage_new 1 2)) \<inter>
     set (companies (getCompanies MemStorage_new 2 2)) = {}"
    using p by simp
  moreover have "concat (map (\<lambda>p. companies (getCompanies MemStorage_new (int p) 2)) [1..<Suc 2]) =
     map_values (companiesMap MemStorage_new)"
    by (rule p[THEN conjunct2, THEN conjunct2, THEN spec, of 2, THEN mp, OF len])
  ultimately show ?thesis using store_inv_new by blast
qed

section \<open>Creation\<close>

lemma createCompany_result [simp]:
  "fst (createCompany this c) = with_id c (currentCompanyId this)"
  by (simp add: createCompany_def Let_def)

lemma createCompany_counter [simp]:
  "currentCompanyId (snd (createCompany this c)) = currentCompanyId this + 1"
  by (simp add: createCompany_def Let_def)

lemma createCompany_stored:
  "getCompany (snd (createCompany this c)) (currentCompanyId this) =
     Some (with_id c (currentCompanyId this))"
  by (simp add: createCompany_def Let_def getCompany_def map_get_def map_set_def update_conv')

lemma updateCompany_counter [simp]:
  "currentCompanyId (snd (updateCompany this i p)) = currentCompanyId this"
  by (simp add: updateCompany_def Let_def split: option.splits)

lemma deleteCompany_counter [simp]:
  "currentCompanyId (snd (deleteCompany this i)) = currentCompanyId this"
  by (simp add: deleteCompany_def map_delete_def)

lemma createMany_loop_eq:
  "createMany_loop this n cs = (n + length cs, snd (create_each this cs))"
  by (induction cs arbitrary: this n) (simp_all add: case_prod_beta)


lemma create_each_ids:
  "map id_c (fst (create_each this cs)) =
     map (\<lambda>k. currentCompanyId this + int k) [0..<length cs]"
proof (induction cs arbitrary: this)
  case Nil
  show ?case by simp
next
  case (Cons c cs)
  have "[0..<length (c # cs)] = 0 # map Suc [0..<length cs]"
    by (simp add: upt_conv_Cons map_Suc_upt del: upt_Suc)
  with Cons[of "snd (createCompany this c)"] show ?case
    by (simp add: case_prod_beta o_def algebra_simps del: upt_Suc)
qed


lemma create_each_counter:
  "currentCompanyId (snd (create_each this cs)) = currentCompanyId this + int (length cs)"
  by (induction cs arbitrary: this) (simp_all add: case_prod_beta)

lemma createManyCompanies_state:
  "snd (createManyCompanies this cs) = snd (create_each this cs)"
  by (simp add: createManyCompanies_def createMany_loop_eq)

lemma create_each_bounds:
  assumes "x \<in> set (fst (create_each this cs))"
  shows "currentCompanyId this \<le> id_c x \<and> id_c x < currentCompanyId this + int (length cs)"
proof -
  from assms have "id_c x \<in> set (map id_c (fst (create_each this cs)))" by simp
  then show ?thesis unfolding create_each_ids by auto
qed

lemma sorted_wrt_offsets: "sorted_wrt (<) (map (\<lambda>k. c + int k) [0..<n])"
  by (simp add: sorted_wrt_map sorted_wrt_iff_nth_less)

lemma step_ids:
  "currentCompanyId this \<le> currentCompanyId (snd (step this r)) \<and>
   (\<forall>x\<in>set (fst (step this r)).
      currentCompanyId this \<le> id_c x \<and> id_c x < currentCompanyId (snd (step this r))) \<and>
   sorted_wrt (<) (map id_c (fst (step this r)))"
  by (cases r)
     (simp_all add: case_prod_beta createManyCompanies_state create_each_counter
        create_each_bounds sorted_wrt_offsets create_each_ids)

lemma run_ids:
  "currentCompanyId this \<le> currentCompanyId (snd (run this rs)) \<and>
   (\<forall>x\<in>set (fst (run this rs)).
      currentCompanyId this \<le> id_c x \<and> id_c x < currentCompanyId (snd (run this rs))) \<and>
   sorted_wrt (<) (map id_c (fst (run this rs)))"
proof (induction rs arbitrary: this)
  case Nil
  show ?case by simp
next
  case (Cons r rs)
  let ?s1 = "snd (step this r)"
  note s = step_ids[of this r] and ih = Cons.IH[of ?s1]
  have run_eq: "run this (r # rs) = (fst (step this r) @ fst (run ?s1 rs), snd (run ?s1 rs))"
    by (simp add: case_prod_beta)
  from s ih show ?case
    unfolding run_eq by (fastforce simp: sorted_wrt_append)
qed

lemma run_append:
  "run this (rs @ rs') =
     (fst (run this rs) @ fst (run (snd (run this rs)) rs'), snd (run (snd (run this rs)) rs'))"
  by (induction rs arbitrary: this) (simp_all add: case_prod_beta)

lemma run_constructor:
  "run MemStorage_fields (map Create sampleCompanies) =
     (map_values (companiesMap MemStorage_new), MemStorage_new)"
  by code_simp

text \<open>
  C1: let a store that satisfies the invariant (the store before the constructor's three
  calls, or any later state) serve any sequence of creations, bulk creations, updates and
  deletions, and let \<^verbatim>\<open>createCompany\<close> be called next. The identifier of the record it returns is
  greater than the identifier of every record created before in the sequence and than
  every key the map has or had at the start, so the identifiers assigned are strictly
  increasing and none is assigned twice; the record returned is the record stored under
  its identifier, and it is the input with that identifier added.
\<close>

theorem createCompany_identifier_fresh:
  assumes "store_inv this0"
    and "run this0 reqs = (assigned, this)"
    and "createCompany this c = (company, this')"
  shows "(\<forall>r\<in>set assigned. id_c r < id_c company) \<and>
         (\<forall>k\<in>set (map fst (companiesMap this0)). k < id_c company) \<and>
         (\<forall>k\<in>set (map fst (companiesMap this)). k < id_c company) \<and>
         sorted_wrt (<) (map id_c (assigned @ [company])) \<and>
         getCompany this' (id_c company) = Some company \<and>
         company = with_id c (id_c company) \<and>
         currentCompanyId this' = id_c company + 1"
proof -
  from assms(3) have company: "company = with_id c (currentCompanyId this)"
    and this': "this' = snd (createCompany this c)"
    by (metis createCompany_result fst_conv, metis snd_conv)
  then have idc: "id_c company = currentCompanyId this" by simp
  from assms(2) have a: "assigned = fst (run this0 reqs)" and t: "this = snd (run this0 reqs)"
    by simp_all
  note ids = run_ids[of this0 reqs, folded a t]
  have inv: "store_inv this" unfolding t by (rule store_inv_run[OF assms(1)])
  have old: "\<forall>r\<in>set assigned. id_c r < id_c company"
    using ids idc by simp
  have keys0: "\<forall>k\<in>set (map fst (companiesMap this0)). k < id_c company"
    using assms(1) ids idc by (fastforce simp: store_inv_def list_all_iff)
  have keys: "\<forall>k\<in>set (map fst (companiesMap this)). k < id_c company"
    using inv idc by (fastforce simp: store_inv_def list_all_iff)
  have sorted: "sorted_wrt (<) (map id_c (assigned @ [company]))"
    using ids old by (simp add: sorted_wrt_append)
  have stored: "getCompany this' (id_c company) = Some company"
    using createCompany_stored[of this c] by (simp add: this' company)
  have "currentCompanyId this' = id_c company + 1"
    unfolding this' idc by simp
  with old keys0 keys sorted stored company idc show ?thesis by simp
qed

theorem createCompany_identifier_fresh_witness:
  "store_inv MemStorage_fields \<and>
   id_c (fst (createCompany
     (snd (run MemStorage_fields (map Create sampleCompanies @ [Delete 3]))) (hd sampleCompanies))) = 4 \<and>
   sorted_wrt (<) (map id_c
     (fst (run MemStorage_fields (map Create sampleCompanies @ [Delete 3])) @
      [fst (createCompany
         (snd (run MemStorage_fields (map Create sampleCompanies @ [Delete 3])))
         (hd sampleCompanies))]))"
proof -
  let ?reqs = "map Create sampleCompanies @ [Delete 3]"
  let ?st = "snd (run MemStorage_fields ?reqs)"
  have r: "run MemStorage_fields ?reqs = (fst (run MemStorage_fields ?reqs), ?st)"
    by (rule surjective_pairing)
  have c: "createCompany ?st (hd sampleCompanies) =
      (fst (createCompany ?st (hd sampleCompanies)),
       snd (createCompany ?st (hd sampleCompanies)))"
    by (rule surjective_pairing)
  have t: "sorted_wrt (<) (map id_c
      (fst (run MemStorage_fields ?reqs) @ [fst (createCompany ?st (hd sampleCompanies))]))"
    using createCompany_identifier_fresh[OF store_inv_fields r c] by blast
  have four: "id_c (fst (createCompany ?st (hd sampleCompanies))) = 4"
    by code_simp
  from t four show ?thesis using store_inv_fields by simp
qed

section \<open>Bulk creation\<close>


section \<open>Update\<close>

lemma map_of_key: "map_of m k = Some v \<Longrightarrow> k \<in> fst ` set m"
  by (metis map_of_eq_None_iff option.distinct(1))

text \<open>
  C4: \<^verbatim>\<open>updateCompany\<close> on an identifier without a record returns \<^verbatim>\<open>undefined\<close> and
  leaves the store as it is. On the identifier of a record it returns the record in which
  every field supplied has the supplied value and every field not supplied, the
  identifier included, has its value from before; that record is stored under the
  identifier, every other record, the order of the records and the counter are unchanged.
\<close>

theorem updateCompany_merge:
  "(getCompany this i = None \<longrightarrow> updateCompany this i p = (None, this)) \<and>
   (\<forall>company. getCompany this i = Some company \<longrightarrow>
      (\<exists>updated this'. updateCompany this i p = (Some updated, this') \<and>
         name updated = (case name_opt p of None \<Rightarrow> name company | Some v \<Rightarrow> v) \<and>
         contact updated = (case contact_opt p of None \<Rightarrow> contact company | Some v \<Rightarrow> v) \<and>
         email updated = (case email_opt p of None \<Rightarrow> email company | Some v \<Rightarrow> v) \<and>
         phone updated = (case phone_opt p of None \<Rightarrow> phone company | Some v \<Rightarrow> v) \<and>
         industry updated = (case industry_opt p of None \<Rightarrow> industry company | Some v \<Rightarrow> v) \<and>
         location updated = (case location_opt p of None \<Rightarrow> location company | Some v \<Rightarrow> v) \<and>
         employees updated = (case employees_opt p of None \<Rightarrow> employees company | Some v \<Rightarrow> v) \<and>
         revenue updated = (case revenue_opt p of None \<Rightarrow> revenue company | Some v \<Rightarrow> v) \<and>
         status updated = (case status_opt p of None \<Rightarrow> status company | Some v \<Rightarrow> v) \<and>
         lastContact updated =
           (case lastContact_opt p of None \<Rightarrow> lastContact company | Some v \<Rightarrow> v) \<and>
         id_c updated = id_c company \<and>
         getCompany this' i = Some updated \<and>
         (\<forall>j. j \<noteq> i \<longrightarrow> getCompany this' j = getCompany this j) \<and>
         map fst (companiesMap this') = map fst (companiesMap this) \<and>
         currentCompanyId this' = currentCompanyId this))"
proof (intro conjI allI impI)
  assume "getCompany this i = None"
  then show "updateCompany this i p = (None, this)"
    by (simp add: updateCompany_def getCompany_def)
next
  fix company
  assume g: "getCompany this i = Some company"
  let ?u = "spread company p"
  let ?t = "this\<lparr>companiesMap := map_set (companiesMap this) i ?u\<rparr>"
  from g have u: "updateCompany this i p = (Some ?u, ?t)"
    by (simp add: updateCompany_def getCompany_def Let_def)
  from g have "i \<in> fst ` set (companiesMap this)"
    by (auto simp: getCompany_def map_get_def dest: map_of_key)
  then have keys: "map fst (companiesMap ?t) = map fst (companiesMap this)"
    by (simp add: map_set_def map_fst_update_present)
  have get: "getCompany ?t i = Some ?u"
    by (simp add: getCompany_def map_get_def map_set_def update_conv')
  have others: "\<forall>j. j \<noteq> i \<longrightarrow> getCompany ?t j = getCompany this j"
    by (simp add: getCompany_def map_get_def map_set_def update_conv')
  have fields:
    "name ?u = (case name_opt p of None \<Rightarrow> name company | Some v \<Rightarrow> v)"
    "contact ?u = (case contact_opt p of None \<Rightarrow> contact company | Some v \<Rightarrow> v)"
    "email ?u = (case email_opt p of None \<Rightarrow> email company | Some v \<Rightarrow> v)"
    "phone ?u = (case phone_opt p of None \<Rightarrow> phone company | Some v \<Rightarrow> v)"
    "industry ?u = (case industry_opt p of None \<Rightarrow> industry company | Some v \<Rightarrow> v)"
    "location ?u = (case location_opt p of None \<Rightarrow> location company | Some v \<Rightarrow> v)"
    "employees ?u = (case employees_opt p of None \<Rightarrow> employees company | Some v \<Rightarrow> v)"
    "revenue ?u = (case revenue_opt p of None \<Rightarrow> revenue company | Some v \<Rightarrow> v)"
    "status ?u = (case status_opt p of None \<Rightarrow> status company | Some v \<Rightarrow> v)"
    "lastContact ?u = (case lastContact_opt p of None \<Rightarrow> lastContact company | Some v \<Rightarrow> v)"
    "id_c ?u = id_c company"
    by (simp_all add: spread_def or_else_def)
  have cnt: "currentCompanyId ?t = currentCompanyId this" by simp
  show "\<exists>updated this'. updateCompany this i p = (Some updated, this') \<and>
         name updated = (case name_opt p of None \<Rightarrow> name company | Some v \<Rightarrow> v) \<and>
         contact updated = (case contact_opt p of None \<Rightarrow> contact company | Some v \<Rightarrow> v) \<and>
         email updated = (case email_opt p of None \<Rightarrow> email company | Some v \<Rightarrow> v) \<and>
         phone updated = (case phone_opt p of None \<Rightarrow> phone company | Some v \<Rightarrow> v) \<and>
         industry updated = (case industry_opt p of None \<Rightarrow> industry company | Some v \<Rightarrow> v) \<and>
         location updated = (case location_opt p of None \<Rightarrow> location company | Some v \<Rightarrow> v) \<and>
         employees updated = (case employees_opt p of None \<Rightarrow> employees company | Some v \<Rightarrow> v) \<and>
         revenue updated = (case revenue_opt p of None \<Rightarrow> revenue company | Some v \<Rightarrow> v) \<and>
         status updated = (case status_opt p of None \<Rightarrow> status company | Some v \<Rightarrow> v) \<and>
         lastContact updated =
           (case lastContact_opt p of None \<Rightarrow> lastContact company | Some v \<Rightarrow> v) \<and>
         id_c updated = id_c company \<and>
         getCompany this' i = Some updated \<and>
         (\<forall>j. j \<noteq> i \<longrightarrow> getCompany this' j = getCompany this j) \<and>
         map fst (companiesMap this') = map fst (companiesMap this) \<and>
         currentCompanyId this' = currentCompanyId this"
    apply (rule exI[of _ ?u], rule exI[of _ ?t])
    using u fields get others keys cnt by (intro conjI) assumption+
qed

theorem updateCompany_merge_witness:
  "updateCompany MemStorage_new 9 (empty_partial\<lparr>status_opt := Some ''Active''\<rparr>) =
     (None, MemStorage_new) \<and>
   (\<exists>updated this'.
      updateCompany MemStorage_new 2 (empty_partial\<lparr>status_opt := Some ''Active''\<rparr>) =
        (Some updated, this') \<and>
      status updated = ''Active'' \<and> name updated = ''TechCorp'' \<and> id_c updated = 2 \<and>
      getCompany this' 2 = Some updated)"
proof -
  let ?p = "empty_partial\<lparr>status_opt := Some ''Active''\<rparr>"
  have absent: "getCompany MemStorage_new 9 = None" by code_simp
  have present: "getCompany MemStorage_new 2 = Some (with_id (sampleCompanies ! 1) 2)"
    by code_simp
  have old: "name (with_id (sampleCompanies ! 1) 2) = ''TechCorp''"
    "id_c (with_id (sampleCompanies ! 1) 2) = 2"
    by (simp_all add: sampleCompanies_def with_id_def)
  have p: "name_opt ?p = None" "status_opt ?p = Some ''Active''"
    by (simp_all add: empty_partial_def)
  from updateCompany_merge[of MemStorage_new 9 ?p] absent
  have a: "updateCompany MemStorage_new 9 ?p = (None, MemStorage_new)" by blast
  from updateCompany_merge[of MemStorage_new 2 ?p] present
  obtain updated this' where
    "updateCompany MemStorage_new 2 ?p = (Some updated, this')"
    "name updated = (case name_opt ?p of None \<Rightarrow> name (with_id (sampleCompanies ! 1) 2) | Some v \<Rightarrow> v)"
    "status updated = (case status_opt ?p of None \<Rightarrow> status (with_id (sampleCompanies ! 1) 2) | Some v \<Rightarrow> v)"
    "id_c updated = id_c (with_id (sampleCompanies ! 1) 2)"
    "getCompany this' 2 = Some updated"
    by blast
  with a old p show ?thesis by (simp del: One_nat_def)
qed

section \<open>Search\<close>

lemma matches_sublist:
  "matches lowercaseQuery c \<longleftrightarrow>
     sublist lowercaseQuery (toLowerCase (name c)) \<or>
     sublist lowercaseQuery (toLowerCase (contact c)) \<or>
     sublist lowercaseQuery (toLowerCase (email c)) \<or>
     sublist lowercaseQuery (toLowerCase (industry c)) \<or>
     sublist lowercaseQuery (toLowerCase (location c))"
  by (simp add: matches_def includes_str_sublist)

lemma map_snd_filter:
  "map snd (filter (\<lambda>(k, c). P c) m) = filter P (map snd m)"
  by (induction m) auto

lemma searchCompanies_as_getCompanies:
  "searchCompanies this q page pageSize =
     getCompanies
       (this\<lparr>companiesMap := filter (\<lambda>(k, c). matches (toLowerCase q) c) (companiesMap this)\<rparr>)
       page pageSize"
  by (simp add: searchCompanies_def getCompanies_def Let_def map_values_def map_snd_filter)

lemma searchCompanies_total:
  "total (searchCompanies this q page pageSize) =
     length (filter (matches (toLowerCase q)) (map_values (companiesMap this)))"
  by (simp add: searchCompanies_def Let_def)

lemma MemStorage_new_rows:
  "map_values (companiesMap MemStorage_new) =
     [with_id (sampleCompanies ! 0) 1, with_id (sampleCompanies ! 1) 2,
      with_id (sampleCompanies ! 2) 3]"
  by code_simp

lemma searchCompanies_underscore:
  "searchCompanies MemStorage_new ''_'' 1 10 = \<lparr>companies = [], total = 0\<rparr>"
  by code_simp

lemma searchCompanies_upper_case:
  "map id_c (companies (searchCompanies MemStorage_new ''TECHCORP'' 1 10)) = [2]"
  by code_simp

lemma like_match_percent: "like_match lc ''%'' s"
  by (induction s) simp_all

lemma like_match_any_one: "like_match lc ''%_%'' s \<longleftrightarrow> s \<noteq> []"
proof (cases s)
  case Nil
  then show ?thesis by simp
next
  case (Cons c cs)
  have "like_match lc ''_%'' (c # cs) = like_match lc ''%'' cs"
    by (simp add: like_match.simps(2)[of lc "CHR ''_''" "''%''" "c # cs"]
          del: like_match.simps)
  then have "like_match lc ''_%'' (c # cs)"
    by (simp only: like_match_percent)
  then have "like_match lc ''%_%'' (c # cs)"
    by (simp add: like_match.simps(2)[of lc "CHR ''%''" "''_%''" "c # cs"]
          del: like_match.simps)
  with Cons show ?thesis by simp
qed

lemma searchCondition_underscore:
  "searchCondition lc ''_'' r \<longleftrightarrow>
     name r \<noteq> [] \<or> contact r \<noteq> [] \<or> email r \<noteq> [] \<or> industry r \<noteq> [] \<or> location r \<noteq> []"
  by (simp add: searchCondition_def ilike_def like_match_any_one del: like_match.simps)

text \<open>
  C5 does not hold of \<^verbatim>\<open>DatabaseStorage\<close>: the query is put into the pattern as it is,
  so its \<^verbatim>\<open>%\<close> and \<^verbatim>\<open>_\<close> are wildcards. On a table with the three sample companies
  the query \<^verbatim>\<open>_\<close> returns all three, newest first, with the total 3, whatever the case
  folding of the database, although no searchable field of any of them contains the
  character \<^verbatim>\<open>_\<close>. (By \<open>searchCompanies_underscore\<close> the in-memory store returns no
  record and the total 0 there.)
\<close>

theorem DatabaseStorage_searchCompanies_wildcard:
  "DatabaseStorage_searchCompanies lc (map_values (companiesMap MemStorage_new)) ''_'' 1 10 =
     Inr \<lparr>companies = rev (map_values (companiesMap MemStorage_new)), total = 3\<rparr> \<and>
   list_all
     (\<lambda>r. CHR ''_'' \<notin> set (name r) \<and> CHR ''_'' \<notin> set (contact r) \<and> CHR ''_'' \<notin> set (email r) \<and>
          CHR ''_'' \<notin> set (industry r) \<and> CHR ''_'' \<notin> set (location r))
     (map_values (companiesMap MemStorage_new))"
proof -
  let ?t = "[with_id (sampleCompanies ! 0) 1, with_id (sampleCompanies ! 1) 2,
      with_id (sampleCompanies ! 2) 3]"
  have all: "filter (searchCondition lc ''_'') ?t = ?t"
    by (simp add: searchCondition_underscore sampleCompanies_def with_id_def)
  have sorted: "sort_key id_c ?t = ?t"
    by simp
  have "DatabaseStorage_searchCompanies lc ?t ''_'' 1 10 = Inr \<lparr>companies = rev ?t, total = 3\<rparr>"
    unfolding DatabaseStorage_searchCompanies_def all sorted by (simp del: One_nat_def)
  moreover have "list_all
     (\<lambda>r. CHR ''_'' \<notin> set (name r) \<and> CHR ''_'' \<notin> set (contact r) \<and> CHR ''_'' \<notin> set (email r) \<and>
          CHR ''_'' \<notin> set (industry r) \<and> CHR ''_'' \<notin> set (location r)) ?t"
    by (simp add: sampleCompanies_def with_id_def)
  ultimately show ?thesis unfolding MemStorage_new_rows by blast
qed

section \<open>Order of the records\<close>

lemma sorted_wrt_slice: "sorted_wrt P xs \<Longrightarrow> sorted_wrt P (slice xs s e)"
  unfolding slice_def Let_def by (simp add: sorted_wrt_take sorted_wrt_drop)

lemma slice_map: "map f (slice xs s e) = slice (map f xs) s e"
  by (simp add: slice_def Let_def take_map drop_map)

lemma getCompanies_ascending:
  "store_inv this \<Longrightarrow>
   sorted_wrt (<) (map id_c (companies (getCompanies this page pageSize)))"
  by (simp add: getCompanies_def Let_def slice_map sorted_wrt_slice store_inv_ascending)

text \<open>
  C2 does not hold of \<^verbatim>\<open>MemStorage\<close>: the first page of a new store lists the three
  sample records by ascending identifier, oldest first, with the total 3. (By
  \<open>getCompanies_ascending\<close> every window of every store is in ascending order.)
\<close>

theorem getCompanies_new_store_order:
  "map id_c (companies (getCompanies MemStorage_new 1 10)) = [1, 2, 3] \<and>
   \<not> sorted_wrt (>) (map id_c (companies (getCompanies MemStorage_new 1 10))) \<and>
   total (getCompanies MemStorage_new 1 10) = 3"
  by code_simp

section \<open>Deletion\<close>

lemma deleteCompany_reports:
  "fst (deleteCompany this i) = (getCompany this i \<noteq> None) \<and>
   getCompany (snd (deleteCompany this i)) i = None \<and>
   (\<forall>j. j \<noteq> i \<longrightarrow> getCompany (snd (deleteCompany this i)) j = getCompany this j) \<and>
   fst (deleteCompany (snd (deleteCompany this i)) i) = False"
  by (auto simp: deleteCompany_def map_delete_def getCompany_def map_get_def delete_conv'
        map_of_eq_None_iff delete_notin_dom)

lemma DatabaseStorage_deleteCompany_true: "fst (DatabaseStorage_deleteCompany t i) = True"
  by (simp add: DatabaseStorage_deleteCompany_def)

lemma DatabaseStorage_deleteCompany_removes:
  "DatabaseStorage_getCompany (snd (DatabaseStorage_deleteCompany t i)) i = None"
  by (simp add: DatabaseStorage_deleteCompany_def DatabaseStorage_getCompany_def
        db_select_where_id_def db_delete_where_id_def filter_empty_conv)

text \<open>
  C3 does not hold of \<^verbatim>\<open>DatabaseStorage\<close>: on a table with one record, the first
  \<^verbatim>\<open>deleteCompany\<close> of its identifier removes it, \<^verbatim>\<open>getCompany\<close> then finds nothing,
  and the second \<^verbatim>\<open>deleteCompany\<close> of that identifier removes nothing and returns
  \<^verbatim>\<open>true\<close> all the same. (By \<open>deleteCompany_reports\<close> the in-memory store does what the
  claim says.)
\<close>

theorem DatabaseStorage_second_delete:
  "DatabaseStorage_deleteCompany [with_id (hd sampleCompanies) 1] 1 = (True, []) \<and>
   DatabaseStorage_getCompany [] 1 = None \<and>
   DatabaseStorage_deleteCompany [] 1 = (True, [])"
  by (simp add: DatabaseStorage_deleteCompany_def DatabaseStorage_getCompany_def
        db_select_where_id_def db_delete_where_id_def)

section \<open>Import\<close>

lemma headerMap_get_plain:
  "k \<notin> set prototype_keys \<Longrightarrow> or_else (headerMap_get k) (HString k) \<noteq> HObject"
  by (simp add: headerMap_get_def or_else_def split: option.splits)

lemma normalizeHeaders_plain:
  "list_all plain_header headers \<Longrightarrow>
   \<exists>hs. normalizeHeaders headers = Inr hs \<and> Some HObject \<notin> set hs"
proof (induction headers)
  case Nil
  show ?case by simp
next
  case (Cons h headers)
  then obtain hs where hs: "normalizeHeaders headers = Inr hs" "Some HObject \<notin> set hs"
    by auto
  show ?case
  proof (cases h)
    case None
    with hs show ?thesis by simp
  next
    case (Some c)
    with Cons.prems obtain s where c: "c = CStr s" "toLowerCase s \<notin> set prototype_keys"
      by (cases c) (simp_all add: plain_header_def)
    with Some hs headerMap_get_plain[OF c(2)] show ?thesis
      by (simp add: normalizeHeader_def Let_def)
  qed
qed

lemma forEach_header_empty_row [simp]: "forEach_header rt index hs [] company = Inr company"
proof (induction hs arbitrary: index)
  case Nil
  show ?case by simp
next
  case (Cons h hs)
  then show ?case by (cases h) (simp_all add: row_at_def)
qed

lemma forEach_header_plain:
  "Some HObject \<notin> set hs \<Longrightarrow> \<exists>m. forEach_header rt index hs r company = Inr m"
proof (induction hs arbitrary: index company)
  case Nil
  show ?case by simp
next
  case (Cons h hs)
  then have ih: "\<And>i c. \<exists>m. forEach_header rt i hs r c = Inr m" by simp
  show ?case
  proof (cases h)
    case None
    with ih show ?thesis by simp
  next
    case (Some hd)
    with Cons.prems obtain s where "hd = HString s" by (cases hd) auto
    with Some ih show ?thesis by (simp split: option.splits)
  qed
qed

lemma accepted_empty_row [simp]: "accepted rt hs [] = None"
  by (simp add: accepted_def mapped_def validate_def empty_partial_def truthy_def)

lemma rows_loop_plain:
  assumes "Some HObject \<notin> set hs"
  shows "rows_loop rt hs rows pushed = Inr (pushed @ List.map_filter (accepted rt hs) rows)"
proof (induction rows arbitrary: pushed)
  case Nil
  show ?case by (simp add: List.map_filter_simps)
next
  case (Cons r rows)
  show ?case
  proof (cases "r = []")
    case True
    with Cons show ?thesis by (simp add: List.map_filter_simps)
  next
    case False
    from forEach_header_plain[OF assms] obtain m where
      "forEach_header rt 0 hs r empty_partial = Inr m" by blast
    with False Cons show ?thesis
      by (simp add: List.map_filter_simps accepted_def mapped_def split: option.splits)
  qed
qed

lemma truthy_non_empty: "truthy v \<longleftrightarrow> non_empty v"
  by (cases v) (simp_all add: truthy_def non_empty_def)

lemma str_default_cases:
  "(\<not> non_empty v \<longrightarrow> str_default v d = d) \<and> (non_empty v \<longrightarrow> v = Some (str_default v d))"
  by (cases v) (auto simp: str_default_def non_empty_def)

lemma validate_iff:
  "(\<exists>company. validate rt m = Some company) \<longleftrightarrow>
     non_empty (name_opt m) \<and> non_empty (contact_opt m) \<and> non_empty (email_opt m)"
  by (simp add: validate_def truthy_non_empty)

lemma validate_fields:
  assumes "validate rt m = Some company"
  shows "name_opt m = Some (name company)"
    and "contact_opt m = Some (contact company)"
    and "email_opt m = Some (email company)"
    and "phone company = str_default (phone_opt m) ''N/A''"
    and "industry company = str_default (industry_opt m) ''Other''"
    and "location company = str_default (location_opt m) ''Unknown''"
    and "employees company = num_default (employees_opt m) (Finite 0)"
    and "revenue company = str_default (revenue_opt m) ''Unknown''"
    and "status company = str_default (status_opt m) ''New''"
    and "lastContact company = str_default (lastContact_opt m) (today rt)"
  using assms
  by (auto simp: validate_def truthy_def or_else_def split: if_splits option.splits)

lemma import_plain_headers:
  assumes "list_all plain_header headers" and "rows \<noteq> []"
  shows "\<exists>hs. normalizeHeaders headers = Inr hs \<and>
           (\<forall>r. \<exists>m. mapped rt hs r = Inr m \<and> accepted rt hs r = validate rt m) \<and>
           processExcelFile rt (headers # rows) =
             (if List.map_filter (accepted rt hs) rows = [] then Inl NoValidData
              else Inr (List.map_filter (accepted rt hs) rows))"
proof -
  from normalizeHeaders_plain[OF assms(1)] obtain hs where
    hs: "normalizeHeaders headers = Inr hs" "Some HObject \<notin> set hs" by blast
  have "\<exists>m. mapped rt hs r = Inr m \<and> accepted rt hs r = validate rt m" for r
    using forEach_header_plain[OF hs(2), of rt 0 r empty_partial]
    by (auto simp: mapped_def accepted_def)
  moreover have "processExcelFile rt (headers # rows) =
             (if List.map_filter (accepted rt hs) rows = [] then Inl NoValidData
              else Inr (List.map_filter (accepted rt hs) rows))"
    using assms(2) hs by (simp add: processExcelFile_def rows_loop_plain)
  ultimately show ?thesis using hs(1) by blast
qed

text \<open>
  C9 does not hold of a sheet with a column headed \<^verbatim>\<open>Constructor\<close>: the normalized
  header is not a string, and for a row with a cell in that column the import ends in a
  \<^verbatim>\<open>TypeError\<close> although the name, the contact and the email of the row are not empty.
  Nor does it hold where a header cell is a number: \<^verbatim>\<open>normalizeHeaders\<close> throws. The
  same row under the three string headers alone is accepted, with the defaults. (By
  \<open>import_plain_headers\<close>, \<open>validate_iff\<close> and \<open>validate_fields\<close> the rows under plain
  headers are accepted and completed as the claim says.)
\<close>

theorem processExcelFile_prototype_header:
  "processExcelFile rt
     [ [Some (CStr ''Name''), Some (CStr ''Contact''), Some (CStr ''Email''),
        Some (CStr ''Constructor'')],
       [Some (CStr ''A''), Some (CStr ''B''), Some (CStr ''c@d.com''), Some (CStr ''x'')]] =
     Inl TypeError \<and>
   processExcelFile rt
     [ [Some (CStr ''Name''), Some (CStr ''Contact''), Some (CStr ''Email''),
        Some (CNum (Finite 2024))],
       [Some (CStr ''A''), Some (CStr ''B''), Some (CStr ''c@d.com'')]] =
     Inl TypeError \<and>
   processExcelFile rt
     [ [Some (CStr ''Name''), Some (CStr ''Contact''), Some (CStr ''Email'')],
       [Some (CStr ''A''), Some (CStr ''B''), Some (CStr ''c@d.com'')]] =
     Inr [\<lparr>name = ''A'', contact = ''B'', email = ''c@d.com'', phone = ''N/A'',
           industry = ''Other'', location = ''Unknown'', employees = Finite 0,
           revenue = ''Unknown'', status = ''New'', lastContact = today rt\<rparr>]"
  by code_simp

end
